theory Spec2Isabelle
  imports Complex_Main
begin

section \<open>Tensors, latent containers and errors\<close>

text \<open>
  The two nodes of \<^verbatim>\<open>nodes.py\<close> work on five-dimensional tensors with axes
  (B, C, T, H, W). A tensor is modelled by its five extents and an index function
  \<open>elem x b c t h w\<close>, which stands for \<^verbatim>\<open>x[b, c, t, h, w]\<close>. Only the values at
  indices inside the extents mean anything. A tensor carries its dtype; latents are
  floating-point tensors, so the dtypes are the floating ones. The device is not modelled.

  Python exceptions are values of type \<open>error\<close>; a function that can raise returns
  \<open>error + 'a\<close>, with \<open>Inl\<close> for the exception.
\<close>

datatype error = TypeError | KeyError | RuntimeError

datatype dtype = Float16 | BFloat16 | Float32 | Float64

record 'a tensor =
  dtype :: dtype
  dimB :: nat
  dimC :: nat
  dimT :: nat
  dimH :: nat
  dimW :: nat
  elem :: "nat \<Rightarrow> nat \<Rightarrow> nat \<Rightarrow> nat \<Rightarrow> nat \<Rightarrow> 'a"

text \<open>A latent container is a dict; the tensor sits under the key \<^verbatim>\<open>samples\<close>.\<close>

type_synonym 'a latent = "string \<rightharpoonup> 'a tensor"

text \<open>
  \<^verbatim>\<open>d["samples"]\<close> for an argument that may be \<^verbatim>\<open>None\<close>: subscripting \<^verbatim>\<open>None\<close> raises
  TypeError, a dict without the key raises KeyError.
\<close>

definition samples_of :: "'a latent option \<Rightarrow> error + 'a tensor" where
  "samples_of d =
     (case d of
        None \<Rightarrow> Inl TypeError
      | Some m \<Rightarrow> (case m ''samples'' of None \<Rightarrow> Inl KeyError | Some x \<Rightarrow> Inr x))"

text \<open>
  Python's normalisation of a slice bound \<open>i\<close> on an axis of \<open>n\<close> entries (stride 1):
  a negative bound counts from the end, and every bound is clipped to \<open>[0, n]\<close>.
\<close>

definition slice_index :: "int \<Rightarrow> nat \<Rightarrow> nat" where
  "slice_index i n = (if i < 0 then nat (max 0 (int n + i)) else min (nat i) n)"

text \<open>\<^verbatim>\<open>x[:, :, s:]\<close>\<close>

definition slice_from :: "int \<Rightarrow> 'a tensor \<Rightarrow> 'a tensor" where
  "slice_from s x =
     (let k = slice_index s (dimT x)
      in x\<lparr>dimT := dimT x - k, elem := (\<lambda>b c t h w. elem x b c (t + k) h w)\<rparr>)"

text \<open>\<^verbatim>\<open>x[:, :, :e]\<close>\<close>

definition slice_to :: "int \<Rightarrow> 'a tensor \<Rightarrow> 'a tensor" where
  "slice_to e x = x\<lparr>dimT := slice_index e (dimT x)\<rparr>"

text \<open>
  \<^verbatim>\<open>torch.promote_types\<close> on the floating dtypes: the wider of the two, and \<open>Float32\<close> for
  the pair of \<open>Float16\<close> and \<open>BFloat16\<close>. Every value of either dtype is a value of the
  promoted one.
\<close>

fun promote_types :: "dtype \<Rightarrow> dtype \<Rightarrow> dtype" where
  "promote_types Float64 _ = Float64"
| "promote_types _ Float64 = Float64"
| "promote_types Float32 _ = Float32"
| "promote_types _ Float32 = Float32"
| "promote_types Float16 Float16 = Float16"
| "promote_types BFloat16 BFloat16 = BFloat16"
| "promote_types Float16 BFloat16 = Float32"
| "promote_types BFloat16 Float16 = Float32"

text \<open>
  \<^verbatim>\<open>torch.cat([x, y], dim=2)\<close>: the extents of all other axes must agree, otherwise torch
  raises RuntimeError. The result has the promoted dtype, in which the values of both
  operands are kept as they are.
\<close>

definition same_bchw :: "'a tensor \<Rightarrow> 'a tensor \<Rightarrow> bool" where
  "same_bchw x y =
     (dimB x = dimB y \<and> dimC x = dimC y \<and> dimH x = dimH y \<and> dimW x = dimW y)"

definition cat_time :: "'a tensor \<Rightarrow> 'a tensor \<Rightarrow> error + 'a tensor" where
  "cat_time x y =
     (if same_bchw x y
      then Inr (x\<lparr>dtype := promote_types (dtype x) (dtype y), dimT := dimT x + dimT y,
                  elem := (\<lambda>b c t h w.
                    if t < dimT x then elem x b c t h w else elem y b c (t - dimT x) h w)\<rparr>)
      else Inl RuntimeError)"

text \<open>
  \<^verbatim>\<open>torch.zeros\<close> / \<^verbatim>\<open>torch.ones\<close> with a dtype and non-negative extents; without a
  \<^verbatim>\<open>dtype\<close> argument torch takes its default, \<open>Float32\<close>.
\<close>

definition full :: "'a \<Rightarrow> dtype \<Rightarrow> nat \<Rightarrow> nat \<Rightarrow> nat \<Rightarrow> nat \<Rightarrow> nat \<Rightarrow> 'a tensor" where
  "full v dt B C T H W =
     \<lparr>dtype = dt, dimB = B, dimC = C, dimT = T, dimH = H, dimW = W,
      elem = (\<lambda>b c t h w. v)\<rparr>"

definition zeros :: "dtype \<Rightarrow> nat \<Rightarrow> nat \<Rightarrow> nat \<Rightarrow> nat \<Rightarrow> nat \<Rightarrow> ('a::zero) tensor" where
  "zeros dt B C T H W = full 0 dt B C T H W"

definition ones :: "dtype \<Rightarrow> nat \<Rightarrow> nat \<Rightarrow> nat \<Rightarrow> nat \<Rightarrow> nat \<Rightarrow> ('a::one) tensor" where
  "ones dt B C T H W = full 1 dt B C T H W"

text \<open>\<^verbatim>\<open>x.repeat(n, 1, 1, 1, 1)\<close>: \<open>n\<close> copies of \<open>x\<close> along the batch axis.\<close>

definition repeat_batch :: "nat \<Rightarrow> 'a tensor \<Rightarrow> 'a tensor" where
  "repeat_batch n x =
     x\<lparr>dimB := n * dimB x, elem := (\<lambda>b c t h w. elem x (b mod dimB x) c t h w)\<rparr>"

text \<open>
  Broadcasting of a source extent onto a destination extent in a slice assignment: the
  source is expanded where its extent is 1; any other difference raises RuntimeError.
\<close>

definition broadcastable :: "nat \<Rightarrow> nat \<Rightarrow> bool" where
  "broadcastable src dst = (src = dst \<or> src = 1)"

definition bidx :: "nat \<Rightarrow> nat \<Rightarrow> nat" where
  "bidx n i = (if n = 1 then 0 else i)"

text \<open>
  \<^verbatim>\<open>dst[:, :, s:] = src\<close>, in place on \<open>dst\<close>; the new \<open>dst\<close> is returned. The copy converts
  every source value to the dtype of \<open>dst\<close>. The conversion of a value to a dtype is
  torch's and is the parameter \<open>to_dtype\<close>.
\<close>

definition assign_from ::
  "(dtype \<Rightarrow> 'a \<Rightarrow> 'a) \<Rightarrow> int \<Rightarrow> 'a tensor \<Rightarrow> 'a tensor \<Rightarrow> error + 'a tensor" where
  "assign_from to_dtype s dst src =
     (let k = slice_index s (dimT dst)
      in if broadcastable (dimB src) (dimB dst) \<and> broadcastable (dimC src) (dimC dst)
            \<and> broadcastable (dimT src) (dimT dst - k)
            \<and> broadcastable (dimH src) (dimH dst) \<and> broadcastable (dimW src) (dimW dst)
         then Inr (dst\<lparr>elem := (\<lambda>b c t h w.
                      if k \<le> t \<and> t < dimT dst
                      then to_dtype (dtype dst)
                             (elem src (bidx (dimB src) b) (bidx (dimC src) c)
                                (bidx (dimT src) (t - k)) (bidx (dimH src) h)
                                (bidx (dimW src) w))
                      else elem dst b c t h w)\<rparr>)
         else Inl RuntimeError)"

text \<open>\<^verbatim>\<open>x[:, :, :e] = v\<close> and \<^verbatim>\<open>x[:, :, s:] = v\<close> for a scalar \<open>v\<close>.\<close>

definition fill_to :: "int \<Rightarrow> 'a \<Rightarrow> 'a tensor \<Rightarrow> 'a tensor" where
  "fill_to e v x =
     x\<lparr>elem := (\<lambda>b c t h w. if t < slice_index e (dimT x) then v else elem x b c t h w)\<rparr>"

definition fill_from :: "int \<Rightarrow> 'a \<Rightarrow> 'a tensor \<Rightarrow> 'a tensor" where
  "fill_from s v x =
     x\<lparr>elem := (\<lambda>b c t h w.
         if slice_index s (dimT x) \<le> t \<and> t < dimT x then v else elem x b c t h w)\<rparr>"

text \<open>
  The contract of the host's padding transform that the theorems on whole runs assume: it
  does not raise and returns a tensor with the extents of its argument.
\<close>

definition keeps_shape :: "('a tensor \<Rightarrow> error + 'a tensor) \<Rightarrow> bool" where
  "keeps_shape process_out =
     (\<forall>z. \<exists>p. process_out z = Inr p \<and> same_bchw p z \<and> dimT p = dimT z)"

section \<open>WanCutLastSlot\<close>

text \<open>
  \<^verbatim>\<open>WanCutLastSlot.execute(latents, slots_to_cut)\<close>, lines 308 to 320: the copy of the
  container with \<^verbatim>\<open>samples\<close> replaced by \<^verbatim>\<open>x[:, :, :T - n]\<close>.
\<close>

definition WanCutLastSlot_execute :: "'a latent \<Rightarrow> int \<Rightarrow> error + 'a latent" where
  "WanCutLastSlot_execute latents slots_to_cut =
     (case latents ''samples'' of
        None \<Rightarrow> Inl KeyError
      | Some x \<Rightarrow>
          (let T = int (dimT x);
               n = max 1 (min slots_to_cut (T - 1));
               x_trim = slice_to (T - n) x
           in Inr (latents(''samples'' \<mapsto> x_trim))))"

section \<open>WanImageToVideoSVIProFLF\<close>

text \<open>Line 120: \<^verbatim>\<open>total_latents = (length - 1) // 4 + 1\<close>; \<^verbatim>\<open>//\<close> on Python ints rounds
  towards minus infinity, as \<open>div\<close> on \<open>int\<close> does.\<close>

definition total_latents :: "int \<Rightarrow> int" where
  "total_latents length' = (length' - 1) div 4 + 1"

text \<open>
  Step 1, lines 128 to 148: the base block. \<open>anchor_latent\<close> is the clone of the anchor
  tensor.
\<close>

definition base_latent_of :: "'a tensor \<Rightarrow> 'a latent option \<Rightarrow> int \<Rightarrow> error + 'a tensor" where
  "base_latent_of anchor_latent prev_samples motion_latent_count =
     (if prev_samples = None \<or> motion_latent_count = 0 then Inr anchor_latent
      else
        (case samples_of prev_samples of
           Inl e \<Rightarrow> Inl e
         | Inr prev_latent \<Rightarrow>
             (let T_prev = int (dimT prev_latent);
                  motion_count = min motion_latent_count T_prev
              in if motion_count > 0
                 then cat_time anchor_latent (slice_from (- motion_count) prev_latent)
                 else Inr anchor_latent)))"

text \<open>
  Step 2, lines 150 to 170: padding or truncation to \<open>total'\<close> slots. The padding transform
  \<^verbatim>\<open>comfy.latent_formats.Wan21().process_out\<close> belongs to the host library and is a
  parameter; it may raise or return any tensor. \<open>dt\<close> is the anchor's dtype.
\<close>

definition pad_latent ::
  "(('a::zero) tensor \<Rightarrow> error + 'a tensor) \<Rightarrow> dtype \<Rightarrow> nat \<Rightarrow> nat \<Rightarrow> nat \<Rightarrow> nat \<Rightarrow> int
     \<Rightarrow> 'a tensor \<Rightarrow> error + 'a tensor" where
  "pad_latent process_out dt B C H W total' base_latent =
     (let T_base = int (dimT base_latent);
          padding_size = max (total' - T_base) 0
      in case (if padding_size > 0
               then (case process_out (zeros dt B C (nat padding_size) H W) of
                       Inl e \<Rightarrow> Inl e
                     | Inr padding \<Rightarrow> cat_time base_latent padding)
               else Inr (slice_to total' base_latent)) of
           Inl e \<Rightarrow> Inl e
         | Inr image_cond_latent \<Rightarrow>
             Inr (if int (dimT image_cond_latent) \<noteq> total'
                  then slice_to total' image_cond_latent
                  else image_cond_latent))"

text \<open>
  Step 3, lines 176 to 204: the end lock. The result is the conditioning block after the
  overwrite, with \<open>end_t_fix\<close>.
\<close>

definition end_lock ::
  "(dtype \<Rightarrow> 'a \<Rightarrow> 'a) \<Rightarrow> nat \<Rightarrow> nat \<Rightarrow> nat \<Rightarrow> nat \<Rightarrow> int \<Rightarrow> 'a latent option \<Rightarrow> 'a tensor
     \<Rightarrow> error + ('a tensor \<times> int)" where
  "end_lock to_dtype B C H W total' end_samples image_cond_latent =
     (if end_samples = None then Inr (image_cond_latent, 0)
      else
        (case samples_of end_samples of
           Inl e \<Rightarrow> Inl e
         | Inr end_clone \<Rightarrow>
             (let end_latent =
                    (if dimB end_clone = 1 \<and> B > 1 then repeat_batch B end_clone
                     else end_clone)
              in if dimC end_latent = C \<and> dimH end_latent = H \<and> dimW end_latent = W
                 then
                   (let T_end = int (dimT end_latent);
                        end_t_fix = min T_end total'
                    in if end_t_fix > 0
                       then (case assign_from to_dtype (- end_t_fix) image_cond_latent
                                     (slice_from (- end_t_fix) end_latent) of
                               Inl e \<Rightarrow> Inl e
                             | Inr locked \<Rightarrow> Inr (locked, end_t_fix))
                       else Inr (image_cond_latent, end_t_fix))
                 else Inr (image_cond_latent, 0))))"

text \<open>
  Step 5, lines 223 to 230: the mask, of the anchor's dtype \<open>dt\<close>. \<^verbatim>\<open>torch.ones\<close> raises
  RuntimeError on a negative extent.
\<close>

definition make_mask ::
  "dtype \<Rightarrow> nat \<Rightarrow> nat \<Rightarrow> int \<Rightarrow> int \<Rightarrow> error + ('a::zero_neq_one) tensor" where
  "make_mask dt H W total' end_t_fix =
     (if total' < 0 then Inl RuntimeError
      else
        (let mask' = fill_to 1 0 (ones dt 1 1 (nat total') H W)
         in Inr (if end_t_fix > 0 then fill_from (- end_t_fix) 0 mask' else mask')))"

text \<open>
  Lines 115 to 230 of \<^verbatim>\<open>WanImageToVideoSVIProFLF.execute\<close>: the locals that the rest of
  the function hands on.
\<close>

record 'a assembled =
  image_cond_latent :: "'a tensor"
  mask' :: "'a tensor"
  end_t_fix :: int
  empty_latent :: "'a tensor"

definition assemble ::
  "(('a::zero_neq_one) tensor \<Rightarrow> error + 'a tensor) \<Rightarrow> (dtype \<Rightarrow> 'a \<Rightarrow> 'a) \<Rightarrow> int
     \<Rightarrow> 'a latent option \<Rightarrow> 'a latent option \<Rightarrow> int \<Rightarrow> 'a latent option
     \<Rightarrow> error + 'a assembled" where
  "assemble process_out to_dtype length' prev_samples anchor_samples motion_latent_count
       end_samples =
     (case samples_of anchor_samples of
        Inl e \<Rightarrow> Inl e
      | Inr anchor_latent \<Rightarrow>
          (let B = dimB anchor_latent; C = dimC anchor_latent;
               H = dimH anchor_latent; W = dimW anchor_latent;
               total' = total_latents length'; dt = dtype anchor_latent
           in case base_latent_of anchor_latent prev_samples motion_latent_count of
                Inl e \<Rightarrow> Inl e
              | Inr base_latent \<Rightarrow>
                  (case pad_latent process_out dt B C H W total' base_latent of
                     Inl e \<Rightarrow> Inl e
                   | Inr padded \<Rightarrow>
                       (case end_lock to_dtype B C H W total' end_samples padded of
                          Inl e \<Rightarrow> Inl e
                        | Inr (locked, t_fix) \<Rightarrow>
                            if total' < 0 then Inl RuntimeError
                            else
                              (case make_mask dt H W total' t_fix of
                                 Inl e \<Rightarrow> Inl e
                               | Inr m \<Rightarrow>
                                   Inr \<lparr>image_cond_latent = locked, mask' = m,
                                        end_t_fix = t_fix,
                                        empty_latent = zeros Float32 B 16 (nat total') H W\<rparr>)))))"

text \<open>
  Modelled from the spec: \<^verbatim>\<open>node_helpers.conditioning_set_values\<close> of the host is not part
  of the sources. A conditioning is a list of pairs of an opaque value and a dict; the
  utility returns a copy in which every dict has the given keys set or overwritten.
\<close>

type_synonym ('c, 'a) conditioning = "('c \<times> (string \<rightharpoonup> 'a tensor)) list"

definition conditioning_set_values ::
  "('c, 'a) conditioning \<Rightarrow> (string \<times> 'a tensor) list \<Rightarrow> ('c, 'a) conditioning" where
  "conditioning_set_values conditioning values =
     map (\<lambda>(t0, d). (t0, fold (\<lambda>(k, v) m. m(k \<mapsto> v)) values d)) conditioning"

record ('c, 'a) node_output =
  positive :: "('c, 'a) conditioning"
  negative :: "('c, 'a) conditioning"
  latent :: "'a latent"

text \<open>\<^verbatim>\<open>WanImageToVideoSVIProFLF.execute\<close>: lines 115 to 253.\<close>

definition WanImageToVideoSVIProFLF_execute ::
  "(('a::zero_neq_one) tensor \<Rightarrow> error + 'a tensor) \<Rightarrow> (dtype \<Rightarrow> 'a \<Rightarrow> 'a)
     \<Rightarrow> ('c, 'a) conditioning \<Rightarrow> ('c, 'a) conditioning \<Rightarrow> int \<Rightarrow> 'a latent option
     \<Rightarrow> 'a latent option \<Rightarrow> int \<Rightarrow> 'a latent option \<Rightarrow> error + ('c, 'a) node_output" where
  "WanImageToVideoSVIProFLF_execute process_out to_dtype positive_in negative_in length'
       prev_samples anchor_samples motion_latent_count end_samples =
     (case assemble process_out to_dtype length' prev_samples anchor_samples
             motion_latent_count end_samples of
        Inl e \<Rightarrow> Inl e
      | Inr a \<Rightarrow>
          (let values = [(''concat_latent_image'', image_cond_latent a),
                         (''concat_mask'', mask' a)]
           in Inr \<lparr>positive = conditioning_set_values positive_in values,
                   negative = conditioning_set_values negative_in values,
                   latent = [''samples'' \<mapsto> empty_latent a]\<rparr>))"

section \<open>Concrete inputs\<close>

text \<open>
  Tensors and a padding transform for the concrete runs below: \<open>ramp B C T H W v\<close> is a
  \<open>Float32\<close> tensor that holds \<open>v + t\<close> in temporal slot \<open>t\<close>, and \<open>offset_out\<close> adds
  \<open>c + 1\<close> to every value of channel \<open>c\<close>, so that its image of a zero tensor is not zero.

  The values of the concrete tensors are integers. \<open>round_to_dtype\<close> is the conversion of
  an integer inside the finite range of a dtype to that dtype: rounding to the nearest
  value with as many significant bits as the dtype has (11, 8, 24 and 53), ties to the
  even significand. \<open>ulp_int p m\<close> is the distance between neighbouring \<open>p\<close>-bit values at
  magnitude \<open>m\<close>.
\<close>

definition ramp :: "nat \<Rightarrow> nat \<Rightarrow> nat \<Rightarrow> nat \<Rightarrow> nat \<Rightarrow> int \<Rightarrow> int tensor" where
  "ramp B C T H W v =
     \<lparr>dtype = Float32, dimB = B, dimC = C, dimT = T, dimH = H, dimW = W,
      elem = (\<lambda>b c t h w. v + int t)\<rparr>"

definition offset_out :: "int tensor \<Rightarrow> error + int tensor" where
  "offset_out z = Inr (z\<lparr>elem := (\<lambda>b c t h w. elem z b c t h w + (int c + 1))\<rparr>)"

fun significand_bits :: "dtype \<Rightarrow> nat" where
  "significand_bits Float16 = 11"
| "significand_bits BFloat16 = 8"
| "significand_bits Float32 = 24"
| "significand_bits Float64 = 53"

function ulp_int :: "nat \<Rightarrow> nat \<Rightarrow> nat" where
  "ulp_int p m = (if m < 2 ^ p then 1 else 2 * ulp_int p (m div 2))"
  by pat_completeness auto
termination
proof (relation "measure snd")
  show "wf (measure snd)" by simp
next
  fix p m :: nat
  assume "\<not> m < 2 ^ p"
  then have "0 < m"
    by (cases m) simp_all
  then show "((p, m div 2), (p, m)) \<in> measure snd"
    by simp
qed

definition round_to_dtype :: "dtype \<Rightarrow> int \<Rightarrow> int" where
  "round_to_dtype dt v =
     (let q = int (ulp_int (significand_bits dt) (nat \<bar>v\<bar>));
          k = \<bar>v\<bar> div q;
          r = \<bar>v\<bar> mod q
      in sgn v * (if 2 * r < q \<or> (2 * r = q \<and> even k) then k * q else (k + 1) * q))"

section \<open>Facts about the steps\<close>

lemma keeps_shape_offset_out: "keeps_shape offset_out"
  by (simp add: keeps_shape_def offset_out_def same_bchw_def)

lemma cat_time_Inr:
  "cat_time x y = Inr z \<Longrightarrow>
     same_bchw z x \<and> dimT z = dimT x + dimT y
     \<and> (\<forall>b c t h w. elem z b c t h w
          = (if t < dimT x then elem x b c t h w else elem y b c (t - dimT x) h w))"
  by (auto simp add: cat_time_def same_bchw_def split: if_splits)

lemma base_latent_of_shape:
  "base_latent_of x prev mlc = Inr base \<Longrightarrow> same_bchw base x \<and> dimT x \<le> dimT base"
  by (auto simp add: base_latent_of_def Let_def same_bchw_def dest!: cat_time_Inr
      split: if_splits sum.splits)

lemma pad_latent_shape:
  "pad_latent po dt B C H W n base = Inr img \<Longrightarrow>
     same_bchw img base \<and> (0 \<le> n \<longrightarrow> int (dimT img) \<le> n)"
  by (auto simp add: pad_latent_def Let_def same_bchw_def slice_to_def slice_index_def
      dest!: cat_time_Inr split: if_splits sum.splits)

lemma assign_from_shape:
  "assign_from td s dst src = Inr r \<Longrightarrow> same_bchw r dst \<and> dimT r = dimT dst"
  by (auto simp add: assign_from_def Let_def same_bchw_def split: if_splits)

lemma end_lock_shape:
  "end_lock td B C H W n end_samples img = Inr (locked, k) \<Longrightarrow>
     same_bchw locked img \<and> dimT locked = dimT img"
  by (auto simp add: end_lock_def Let_def same_bchw_def dest!: assign_from_shape
      split: if_splits sum.splits)

lemma end_lock_fix:
  "end_lock td B C H W n end_samples img = Inr (locked, k) \<Longrightarrow>
     k = (case end_samples of
            None \<Rightarrow> 0
          | Some de \<Rightarrow>
              (case de ''samples'' of
                 None \<Rightarrow> 0
               | Some e \<Rightarrow>
                   if dimC e = C \<and> dimH e = H \<and> dimW e = W
                   then min (int (dimT e)) n else 0))"
  by (auto simp add: end_lock_def Let_def samples_of_def repeat_batch_def
      split: if_splits sum.splits option.splits)

lemma make_mask_Inr:
  "make_mask dt H W n k = Inr (m :: ('a::zero_neq_one) tensor) \<Longrightarrow>
     0 \<le> n \<and> dimB m = 1 \<and> dimC m = 1 \<and> dimT m = nat n \<and> dimH m = H \<and> dimW m = W
     \<and> (\<forall>b c t h w. t < nat n \<longrightarrow>
           elem m b c t h w = (if t = 0 \<or> (0 < k \<and> n - k \<le> int t) then 0 else 1))"
  by (auto simp add: make_mask_def Let_def ones_def full_def fill_to_def fill_from_def
      slice_index_def split: if_splits)

lemma assemble_Inr:
  "assemble po td len prev anchor mlc end_samples = Inr a \<longleftrightarrow>
     (\<exists>x base padded.
        samples_of anchor = Inr x
        \<and> base_latent_of x prev mlc = Inr base
        \<and> pad_latent po (dtype x) (dimB x) (dimC x) (dimH x) (dimW x) (total_latents len) base = Inr padded
        \<and> end_lock td (dimB x) (dimC x) (dimH x) (dimW x) (total_latents len) end_samples padded
            = Inr (image_cond_latent a, end_t_fix a)
        \<and> 0 \<le> total_latents len
        \<and> make_mask (dtype x) (dimH x) (dimW x) (total_latents len) (end_t_fix a) = Inr (mask' a)
        \<and> empty_latent a = zeros Float32 (dimB x) 16 (nat (total_latents len)) (dimH x) (dimW x))"
  by (cases a) (auto simp add: assemble_def Let_def split: sum.splits prod.splits if_splits)

lemma base_latent_of_total:
  assumes "prev = None \<or> (\<exists>dp y. prev = Some dp \<and> dp ''samples'' = Some y \<and> same_bchw y x)"
  shows "\<exists>base. base_latent_of x prev mlc = Inr base"
  using assms
  by (auto simp add: base_latent_of_def Let_def samples_of_def cat_time_def same_bchw_def
      slice_from_def)

lemma pad_latent_total:
  assumes "keeps_shape po" and "dimB base = B" and "dimC base = C" and "dimH base = H"
    and "dimW base = W" and "0 \<le> n"
  shows "\<exists>img. pad_latent po dt B C H W n base = Inr img \<and> int (dimT img) = n
           \<and> same_bchw img base"
proof (cases "int (dimT base) < n")
  case True
  from assms(1) obtain p where p: "po (zeros dt B C (nat (n - int (dimT base))) H W) = Inr p"
    "same_bchw p (zeros dt B C (nat (n - int (dimT base))) H W)"
    "dimT p = dimT (zeros dt B C (nat (n - int (dimT base))) H W :: 'a tensor)"
    unfolding keeps_shape_def by blast
  then show ?thesis
    using True assms(2-6)
    by (auto simp add: pad_latent_def Let_def cat_time_def same_bchw_def zeros_def full_def)
next
  case False
  then show ?thesis
    using assms(6)
    by (auto simp add: pad_latent_def Let_def slice_to_def slice_index_def same_bchw_def)
qed

lemma end_lock_total:
  assumes "end_samples = None
      \<or> (\<exists>de e. end_samples = Some de \<and> de ''samples'' = Some e
            \<and> (dimB e = B \<or> dimB e = 1))"
    and "dimB img = B" and "dimC img = C" and "dimH img = H" and "dimW img = W"
    and "int (dimT img) = n"
  shows "\<exists>locked k. end_lock td B C H W n end_samples img = Inr (locked, k)"
  using assms
  by (auto simp add: end_lock_def Let_def samples_of_def assign_from_def broadcastable_def
      slice_from_def slice_index_def repeat_batch_def)

lemma assemble_total:
  assumes po: "keeps_shape po"
    and x: "anchor = Some da" "da ''samples'' = Some x"
    and pv: "prev = None \<or> (\<exists>dp y. prev = Some dp \<and> dp ''samples'' = Some y \<and> same_bchw y x)"
    and en: "end_samples = None
      \<or> (\<exists>de e. end_samples = Some de \<and> de ''samples'' = Some e
            \<and> (dimB e = dimB x \<or> dimB e = 1))"
    and n: "0 \<le> total_latents len"
  shows "\<exists>a. assemble po td len prev anchor mlc end_samples = Inr a"
proof -
  from base_latent_of_total [OF pv] obtain base where
    base: "base_latent_of x prev mlc = Inr base" by blast
  note bs = base_latent_of_shape [OF base]
  from pad_latent_total [where base = base and B = "dimB x" and C = "dimC x"
      and H = "dimH x" and W = "dimW x" and dt = "dtype x", OF po _ _ _ _ n] bs
  obtain padded where padded:
    "pad_latent po (dtype x) (dimB x) (dimC x) (dimH x) (dimW x) (total_latents len) base = Inr padded"
    "int (dimT padded) = total_latents len" "same_bchw padded base"
    by (auto simp add: same_bchw_def)
  from end_lock_total [where C = "dimC x" and H = "dimH x" and W = "dimW x" and td = td,
      OF en _ _ _ _ padded(2)] padded(3) bs
  obtain locked k where
    lock: "end_lock td (dimB x) (dimC x) (dimH x) (dimW x) (total_latents len) end_samples padded
             = Inr (locked, k)"
    by (auto simp add: same_bchw_def)
  show ?thesis
    using x base padded(1) lock n
    by (simp add: assemble_def samples_of_def Let_def make_mask_def)
qed

section \<open>The temporal slot count\<close>

text \<open>
  C4. For every integer length, the slot count is \<open>floor ((length - 1) / 4) + 1\<close>; lengths
  81, 41, 1, 4 and 5 give 21, 11, 1, 1 and 2 slots. A run that returns produces an empty
  latent and a mask of that many slots.
\<close>

theorem total_latents_floor:
  "total_latents n = \<lfloor>(real_of_int n - 1) / 4\<rfloor> + 1
   \<and> total_latents 81 = 21 \<and> total_latents 41 = 11 \<and> total_latents 1 = 1
   \<and> total_latents 4 = 1 \<and> total_latents 5 = 2
   \<and> (assemble po td n prev anchor mlc end_samples = Inr a \<longrightarrow>
         int (dimT (empty_latent a)) = \<lfloor>(real_of_int n - 1) / 4\<rfloor> + 1
         \<and> int (dimT (mask' a)) = \<lfloor>(real_of_int n - 1) / 4\<rfloor> + 1)"
proof -
  have fl: "\<lfloor>(real_of_int n - 1) / 4\<rfloor> = (n - 1) div 4"
    using floor_divide_of_int_eq [of "n - 1" 4, where ?'a = real] by simp
  have "int (dimT (empty_latent a)) = total_latents n \<and> int (dimT (mask' a)) = total_latents n"
    if "assemble po td n prev anchor mlc end_samples = Inr a"
    using that by (auto simp add: assemble_Inr zeros_def full_def dest!: make_mask_Inr)
  then show ?thesis
    using fl by (simp add: total_latents_def)
qed

theorem total_latents_floor_witness:
  "\<exists>a. assemble offset_out round_to_dtype 81 None (Some [''samples'' \<mapsto> ramp 1 4 1 8 8 100]) 1 None = Inr a
     \<and> dimT (empty_latent a) = 21 \<and> dimT (mask' a) = 21"
proof -
  let ?da = "[''samples'' \<mapsto> ramp 1 4 1 8 8 100]"
  obtain a where a: "assemble offset_out round_to_dtype 81 None (Some ?da) 1 None = Inr a"
    using assemble_total [where anchor = "Some ?da" and da = ?da
        and x = "ramp 1 4 1 8 8 100" and prev = None and end_samples = None and len = 81
        and mlc = 1 and td = round_to_dtype, OF keeps_shape_offset_out]
    by (auto simp add: total_latents_def)
  show ?thesis
    using a total_latents_floor [of 81 offset_out round_to_dtype None "Some ?da" 1 None a]
    by simp
qed

section \<open>Trimming trailing slots\<close>

text \<open>
  C1. For every block with \<open>T \<ge> 1\<close> slots and every \<open>slots_to_cut \<ge> 1\<close> the trimmed block
  is to keep at least one slot and be strictly shorter. The docstring of the node gives
  \<open>n = min (slots_to_cut, T - 1)\<close>, "so at least 1 slot always remains"; the code takes
  \<open>n = max (1, min (slots_to_cut, T - 1))\<close>. On a block of one slot the code cuts that
  slot and returns a block with no slot.
\<close>

theorem cut_last_slot_single_slot_empty:
  "WanCutLastSlot_execute [''samples'' \<mapsto> full (7::int) Float32 1 1 1 1 1] 1
     = Inr [''samples'' \<mapsto> full 7 Float32 1 1 0 1 1]
   \<and> dimT (full (7::int) Float32 1 1 0 1 1) = 0"
  by (simp add: WanCutLastSlot_execute_def full_def slice_to_def slice_index_def)

text \<open>
  On the other inputs the node does what is asked: the result is strictly shorter for every
  \<open>T \<ge> 1\<close>, and from \<open>T \<ge> 2\<close> on it has \<open>T - min slots_to_cut (T - 1)\<close> slots, at least one.
\<close>

lemma cut_last_slot_shorter:
  assumes "latents ''samples'' = Some x" and "1 \<le> dimT x"
  shows "\<exists>out y. WanCutLastSlot_execute latents slots_to_cut = Inr out
           \<and> out ''samples'' = Some y \<and> dimT y < dimT x"
  using assms
  by (auto simp add: WanCutLastSlot_execute_def slice_to_def slice_index_def Let_def
      min_def max_def)

lemma cut_last_slot_bounds:
  assumes "latents ''samples'' = Some x" and "2 \<le> dimT x" and "1 \<le> slots_to_cut"
  shows "\<exists>out y. WanCutLastSlot_execute latents slots_to_cut = Inr out
           \<and> out ''samples'' = Some y
           \<and> int (dimT y) = int (dimT x) - min slots_to_cut (int (dimT x) - 1)
           \<and> 1 \<le> dimT y \<and> dimT y < dimT x"
  using assms
  by (auto simp add: WanCutLastSlot_execute_def slice_to_def slice_index_def Let_def
      min_def max_def)

section \<open>The mask\<close>

text \<open>
  C2. For every run with \<open>length \<ge> 1\<close> that returns, the mask has shape
  \<open>(1, 1, total_latents, H, W)\<close>; \<open>end_t_fix\<close> is \<open>min T_end total_latents\<close> when
  \<open>end_samples\<close> is given with the anchor's channel, height and width, and 0 otherwise; the
  mask is 0 at slot 0 and at the last \<open>end_t_fix\<close> slots and 1 at every other slot.
\<close>

theorem mask_values:
  assumes "assemble po td len prev (Some da) mlc end_samples = Inr a"
    and "da ''samples'' = Some x" and "1 \<le> len"
  shows "dimB (mask' a) = 1 \<and> dimC (mask' a) = 1
         \<and> int (dimT (mask' a)) = total_latents len
         \<and> dimH (mask' a) = dimH x \<and> dimW (mask' a) = dimW x
         \<and> end_t_fix a =
             (case end_samples of
                None \<Rightarrow> 0
              | Some de \<Rightarrow>
                  (case de ''samples'' of
                     None \<Rightarrow> 0
                   | Some e \<Rightarrow>
                       if dimC e = dimC x \<and> dimH e = dimH x \<and> dimW e = dimW x
                       then min (int (dimT e)) (total_latents len) else 0))
         \<and> (\<forall>t h w. int t < total_latents len \<longrightarrow>
               elem (mask' a) 0 0 t h w =
                 (if t = 0 \<or> total_latents len - end_t_fix a \<le> int t then 0 else 1))"
proof -
  from assms(1) obtain padded where
    lock: "end_lock td (dimB x) (dimC x) (dimH x) (dimW x) (total_latents len) end_samples padded
            = Inr (image_cond_latent a, end_t_fix a)"
    and m: "make_mask (dtype x) (dimH x) (dimW x) (total_latents len) (end_t_fix a) = Inr (mask' a)"
    using assms(2) by (auto simp add: assemble_Inr samples_of_def)
  have pos: "1 \<le> total_latents len"
    using assms(3) by (simp add: total_latents_def)
  note fx = end_lock_fix [OF lock]
  have nonneg: "0 \<le> end_t_fix a"
    using pos by (simp add: fx split: option.splits)
  show ?thesis
    using make_mask_Inr [OF m] pos nonneg fx by auto
qed

theorem mask_values_witness:
  "\<exists>a. assemble offset_out round_to_dtype 21 (Some [''samples'' \<mapsto> ramp 1 4 3 8 8 200])
          (Some [''samples'' \<mapsto> ramp 1 4 1 8 8 100]) 2
          (Some [''samples'' \<mapsto> ramp 1 4 2 8 8 300]) = Inr a
       \<and> dimT (mask' a) = 6 \<and> end_t_fix a = 2
       \<and> map (\<lambda>t. elem (mask' a) 0 0 t 0 0) [0, 1, 2, 3, 4, 5] = [0, 1, 1, 1, 0, 0]"
proof -
  obtain a where a: "assemble offset_out round_to_dtype 21 (Some [''samples'' \<mapsto> ramp 1 4 3 8 8 200])
          (Some [''samples'' \<mapsto> ramp 1 4 1 8 8 100]) 2
          (Some [''samples'' \<mapsto> ramp 1 4 2 8 8 300]) = Inr a"
    using assemble_total [where anchor = "Some [''samples'' \<mapsto> ramp 1 4 1 8 8 100]"
        and da = "[''samples'' \<mapsto> ramp 1 4 1 8 8 100]" and x = "ramp 1 4 1 8 8 100"
        and prev = "Some [''samples'' \<mapsto> ramp 1 4 3 8 8 200]"
        and end_samples = "Some [''samples'' \<mapsto> ramp 1 4 2 8 8 300]" and len = 21
        and mlc = 2 and td = round_to_dtype, OF keeps_shape_offset_out]
    by (auto simp add: ramp_def same_bchw_def total_latents_def)
  from mask_values [where x = "ramp 1 4 1 8 8 100", OF a]
  show ?thesis
    using a by (simp add: ramp_def total_latents_def)
qed

section \<open>The base block\<close>

lemma slice_from_tail:
  assumes "0 < k" and "k \<le> int (dimT y)"
  shows "dimT (slice_from (- k) y) = nat k"
    and "elem (slice_from (- k) y) b c j h w = elem y b c (dimT y - nat k + j) h w"
    and "same_bchw (slice_from (- k) y) y"
proof -
  have "slice_index (- k) (dimT y) = dimT y - nat k"
    using assms by (simp add: slice_index_def)
  then show "dimT (slice_from (- k) y) = nat k"
    and "elem (slice_from (- k) y) b c j h w = elem y b c (dimT y - nat k + j) h w"
    and "same_bchw (slice_from (- k) y) y"
    using assms by (auto simp add: slice_from_def Let_def same_bchw_def add.commute)
qed

text \<open>
  C5. Without \<open>prev_samples\<close>, or with \<open>motion_latent_count = 0\<close>, the base block is the
  anchor block. With \<open>prev_samples\<close> of the anchor's batch, channel, height and width and
  \<open>motion_latent_count \<ge> 0\<close>, the step does not raise, whatever \<open>T_prev\<close> is: the base block
  is the anchor followed by the last \<open>min motion_latent_count T_prev\<close> slots of the previous
  block, so \<open>T_base = T_anchor + min motion_latent_count T_prev\<close>.
\<close>

theorem base_block:
  "((prev = None \<or> mlc = 0) \<longrightarrow> base_latent_of x prev mlc = Inr x)
   \<and> (\<forall>dp y. prev = Some dp \<and> dp ''samples'' = Some y \<and> same_bchw y x \<and> 0 \<le> mlc \<longrightarrow>
         (\<exists>base. base_latent_of x prev mlc = Inr base
            \<and> same_bchw base x
            \<and> dimT base = dimT x + min (nat mlc) (dimT y)
            \<and> (\<forall>b c t h w. t < dimT x \<longrightarrow> elem base b c t h w = elem x b c t h w)
            \<and> (\<forall>b c j h w. j < min (nat mlc) (dimT y) \<longrightarrow>
                  elem base b c (dimT x + j) h w
                    = elem y b c (dimT y - min (nat mlc) (dimT y) + j) h w)))"
proof (intro conjI impI allI)
  assume "prev = None \<or> mlc = 0"
  then show "base_latent_of x prev mlc = Inr x"
    by (auto simp add: base_latent_of_def)
next
  fix dp y
  assume h: "prev = Some dp \<and> dp ''samples'' = Some y \<and> same_bchw y x \<and> 0 \<le> mlc"
  let ?k = "min mlc (int (dimT y))"
  have k: "nat ?k = min (nat mlc) (dimT y)"
    using h by (auto simp add: min_def nat_le_iff)
  show "\<exists>base. base_latent_of x prev mlc = Inr base
            \<and> same_bchw base x
            \<and> dimT base = dimT x + min (nat mlc) (dimT y)
            \<and> (\<forall>b c t h w. t < dimT x \<longrightarrow> elem base b c t h w = elem x b c t h w)
            \<and> (\<forall>b c j h w. j < min (nat mlc) (dimT y) \<longrightarrow>
                  elem base b c (dimT x + j) h w
                    = elem y b c (dimT y - min (nat mlc) (dimT y) + j) h w)"
  proof (cases "0 < ?k")
    case True
    have run: "base_latent_of x prev mlc = cat_time x (slice_from (- ?k) y)"
      using h True by (auto simp add: base_latent_of_def samples_of_def Let_def)
    have le: "?k \<le> int (dimT y)" by simp
    note tl = slice_from_tail [OF True le]
    have same: "same_bchw x (slice_from (- ?k) y)"
      using h tl(3) by (simp add: same_bchw_def)
    show ?thesis
      unfolding run using same tl(1) tl(2) k
      by (simp add: cat_time_def same_bchw_def)
  next
    case False
    then have "min (nat mlc) (dimT y) = 0"
      using k h by (simp add: min_def split: if_splits)
    moreover have "base_latent_of x prev mlc = Inr x"
      using h False by (auto simp add: base_latent_of_def samples_of_def Let_def)
    ultimately show ?thesis
      by (simp add: same_bchw_def)
  qed
qed

theorem base_block_witness:
  "base_latent_of (ramp 1 4 1 8 8 100) None 5 = Inr (ramp 1 4 1 8 8 100)
   \<and> (\<exists>base. base_latent_of (ramp 1 4 1 8 8 100) (Some [''samples'' \<mapsto> ramp 1 4 2 8 8 200]) 5
               = Inr base
        \<and> dimT base = 3
        \<and> map (\<lambda>t. elem base 0 0 t 0 0) [0, 1, 2] = [100, 200, 201])"
proof -
  let ?x = "ramp 1 4 1 8 8 100" and ?y = "ramp 1 4 2 8 8 200"
  have a: "base_latent_of ?x None 5 = Inr ?x"
    using base_block [of None 5 ?x] by simp
  have h: "Some [''samples'' \<mapsto> ?y] = Some [''samples'' \<mapsto> ?y]
      \<and> [''samples'' \<mapsto> ?y] ''samples'' = Some ?y \<and> same_bchw ?y ?x \<and> (0::int) \<le> 5"
    by (simp add: same_bchw_def ramp_def)
  from base_block [of "Some [''samples'' \<mapsto> ?y]" 5 ?x, THEN conjunct2, rule_format, OF h]
  obtain base where run: "base_latent_of ?x (Some [''samples'' \<mapsto> ?y]) 5 = Inr base"
    and T: "dimT base = dimT ?x + min (nat 5) (dimT ?y)"
    and e1: "\<forall>b c t h w. t < dimT ?x \<longrightarrow> elem base b c t h w = elem ?x b c t h w"
    and e2: "\<forall>b c j h w. j < min (nat 5) (dimT ?y) \<longrightarrow>
                  elem base b c (dimT ?x + j) h w
                    = elem ?y b c (dimT ?y - min (nat 5) (dimT ?y) + j) h w"
    by blast
  have "elem base 0 0 0 0 0 = 100"
    using e1 [rule_format, of 0 0 0 0 0] by (simp add: ramp_def)
  moreover have "elem base 0 0 1 0 0 = 200"
    using e2 [rule_format, of 0 0 0 0 0] by (simp add: ramp_def)
  moreover have "elem base 0 0 2 0 0 = 201"
    using e2 [rule_format, of 1 0 0 0 0] by (simp add: ramp_def numeral_2_eq_2)
  moreover have "dimT base = 3"
    using T by (simp add: ramp_def)
  ultimately show ?thesis
    using a run by simp
qed

section \<open>Padding\<close>

text \<open>
  C7. When \<open>T_base < total_latents\<close>, the padding step appends \<open>total_latents - T_base\<close>
  slots after the base block, and every appended slot is a slot of the padding transform's
  image of the zero tensor of that many slots.
\<close>

theorem padding_is_encoded_zero:
  assumes "keeps_shape po" and "int (dimT base) < n"
    and "dimB base = B" and "dimC base = C" and "dimH base = H" and "dimW base = W"
  shows "\<exists>p img. po (zeros dt B C (nat (n - int (dimT base))) H W) = Inr p
           \<and> pad_latent po dt B C H W n base = Inr img
           \<and> int (dimT img) = n
           \<and> (\<forall>b c t h w. t < dimT base \<longrightarrow> elem img b c t h w = elem base b c t h w)
           \<and> (\<forall>b c j h w. j < nat (n - int (dimT base)) \<longrightarrow>
                 elem img b c (dimT base + j) h w = elem p b c j h w)"
proof -
  let ?z = "zeros dt B C (nat (n - int (dimT base))) H W :: 'a tensor"
  from assms(1) obtain p where p: "po ?z = Inr p" "same_bchw p ?z" "dimT p = dimT ?z"
    unfolding keeps_shape_def by blast
  have same: "same_bchw base p"
    using p(2) assms(3-6) by (simp add: same_bchw_def zeros_def full_def)
  have T: "dimT p = nat (n - int (dimT base))"
    using p(3) by (simp add: zeros_def full_def)
  have "pad_latent po dt B C H W n base
      = Inr (base\<lparr>dtype := promote_types (dtype base) (dtype p),
               dimT := dimT base + dimT p,
               elem := (\<lambda>b c t h w.
                 if t < dimT base then elem base b c t h w
                 else elem p b c (t - dimT base) h w)\<rparr>)"
    using assms(2) p(1) same T by (simp add: pad_latent_def Let_def cat_time_def)
  then show ?thesis
    using p(1) T assms(2) by simp
qed

theorem padding_is_encoded_zero_witness:
  "\<exists>p img. offset_out (zeros Float32 1 4 3 8 8) = Inr p
     \<and> pad_latent offset_out Float32 1 4 8 8 6 (ramp 1 4 3 8 8 100) = Inr img
     \<and> dimT img = 6
     \<and> map (\<lambda>t. elem img 0 0 t 0 0) [0, 1, 2, 3, 4, 5] = [100, 101, 102, 1, 1, 1]
     \<and> map (\<lambda>t. elem img 0 3 t 0 0) [3, 4, 5] = map (\<lambda>j. elem p 0 3 j 0 0) [0, 1, 2]
     \<and> elem p 0 3 0 0 0 = 4"
proof -
  let ?base = "ramp 1 4 3 8 8 100"
  have less: "int (dimT ?base) < 6" by (simp add: ramp_def)
  from padding_is_encoded_zero [where B = 1 and C = 4 and H = 8 and W = 8 and dt = Float32,
      OF keeps_shape_offset_out less]
  obtain p img where p: "offset_out (zeros Float32 1 4 (nat (6 - int (dimT ?base))) 8 8) = Inr p"
    and run: "pad_latent offset_out Float32 1 4 8 8 6 ?base = Inr img"
    and T: "int (dimT img) = 6"
    and e1: "\<forall>b c t h w. t < dimT ?base \<longrightarrow> elem img b c t h w = elem ?base b c t h w"
    and e2: "\<forall>b c j h w. j < nat (6 - int (dimT ?base)) \<longrightarrow>
                 elem img b c (dimT ?base + j) h w = elem p b c j h w"
    by (auto simp add: ramp_def)
  have three: "nat (6 - int (dimT ?base)) = 3" by (simp add: ramp_def)
  have pv: "p = (zeros Float32 1 4 3 8 8)\<lparr>elem := (\<lambda>b c t h w. int c + 1)\<rparr>"
    using p unfolding three by (simp add: offset_out_def zeros_def full_def)
  have "elem img 0 c 0 0 0 = 100" "elem img 0 c 1 0 0 = 101" "elem img 0 c 2 0 0 = 102" for c
    using e1 [rule_format, of 0 0 c 0 0] e1 [rule_format, of 1 0 c 0 0]
      e1 [rule_format, of 2 0 c 0 0]
    by (simp_all add: ramp_def)
  moreover have "elem img 0 c 3 0 0 = elem p 0 c 0 0 0" "elem img 0 c 4 0 0 = elem p 0 c 1 0 0"
    "elem img 0 c 5 0 0 = elem p 0 c 2 0 0" for c
    using e2 [rule_format, of 0 0 c 0 0] e2 [rule_format, of 1 0 c 0 0]
      e2 [rule_format, of 2 0 c 0 0]
    by (simp_all add: ramp_def)
  moreover have "elem p 0 c j 0 0 = int c + 1" for c j
    by (simp add: pv)
  ultimately show ?thesis
    using p run T unfolding three by simp
qed

section \<open>The end lock\<close>

lemma end_lock_mismatch:
  assumes "de ''samples'' = Some e"
    and "dimC e \<noteq> C \<or> dimH e \<noteq> H \<or> dimW e \<noteq> W"
  shows "end_lock td B C H W n (Some de) img = Inr (img, 0)"
  using assms
  by (auto simp add: end_lock_def samples_of_def Let_def repeat_batch_def)

lemma end_lock_None: "end_lock td B C H W n None img = Inr (img, 0)"
  by (simp add: end_lock_def)

text \<open>
  C6. An \<open>end_samples\<close> block whose channel, height or width differs from the anchor's
  changes nothing and raises nothing: the end-lock step returns the block it was given with
  \<open>end_t_fix = 0\<close>, the whole run equals the run without \<open>end_samples\<close>, and the mask of a
  run that returns is 0 at slot 0 only.
\<close>

theorem end_mismatch_is_skipped:
  assumes "da ''samples'' = Some x" and "de ''samples'' = Some e"
    and "dimC e \<noteq> dimC x \<or> dimH e \<noteq> dimH x \<or> dimW e \<noteq> dimW x"
  shows "(\<forall>img. end_lock td (dimB x) (dimC x) (dimH x) (dimW x) (total_latents len) (Some de) img
             = Inr (img, 0))
         \<and> assemble po td len prev (Some da) mlc (Some de) = assemble po td len prev (Some da) mlc None
         \<and> (\<forall>a. assemble po td len prev (Some da) mlc (Some de) = Inr a \<longrightarrow>
               end_t_fix a = 0
               \<and> (\<forall>t h w. t < dimT (mask' a) \<longrightarrow>
                     elem (mask' a) 0 0 t h w = (if t = 0 then 0 else 1)))"
proof (intro conjI allI impI)
  fix img
  show "end_lock td (dimB x) (dimC x) (dimH x) (dimW x) (total_latents len) (Some de) img
          = Inr (img, 0)"
    using assms(2,3) by (rule end_lock_mismatch [where de = de and e = e])
next
  show "assemble po td len prev (Some da) mlc (Some de) = assemble po td len prev (Some da) mlc None"
    using assms(1) end_lock_mismatch [where de = de and e = e and C = "dimC x" and H = "dimH x"
        and W = "dimW x", OF assms(2,3)]
    by (simp add: assemble_def samples_of_def Let_def end_lock_None split: sum.splits)
next
  fix a
  assume a: "assemble po td len prev (Some da) mlc (Some de) = Inr a"
  then obtain padded where
    lock: "end_lock td (dimB x) (dimC x) (dimH x) (dimW x) (total_latents len) (Some de) padded
            = Inr (image_cond_latent a, end_t_fix a)"
    and m: "make_mask (dtype x) (dimH x) (dimW x) (total_latents len) (end_t_fix a) = Inr (mask' a)"
    using assms(1) by (auto simp add: assemble_Inr samples_of_def)
  from lock show z: "end_t_fix a = 0"
    by (simp add: end_lock_mismatch [where de = de and e = e and C = "dimC x" and H = "dimH x"
        and W = "dimW x", OF assms(2,3)])
  fix t h w
  assume "t < dimT (mask' a)"
  then show "elem (mask' a) 0 0 t h w = (if t = 0 then 0 else 1)"
    using make_mask_Inr [OF m] z by simp
qed

theorem end_mismatch_is_skipped_witness:
  "assemble offset_out round_to_dtype 21 None (Some [''samples'' \<mapsto> ramp 1 4 1 8 8 100]) 1
       (Some [''samples'' \<mapsto> ramp 1 16 2 8 8 300])
     = assemble offset_out round_to_dtype 21 None (Some [''samples'' \<mapsto> ramp 1 4 1 8 8 100]) 1 None
   \<and> (\<exists>a. assemble offset_out round_to_dtype 21 None (Some [''samples'' \<mapsto> ramp 1 4 1 8 8 100]) 1
             (Some [''samples'' \<mapsto> ramp 1 16 2 8 8 300]) = Inr a
         \<and> end_t_fix a = 0 \<and> dimT (mask' a) = 6
         \<and> map (\<lambda>t. elem (mask' a) 0 0 t 0 0) [0, 1, 2, 3, 4, 5] = [0, 1, 1, 1, 1, 1])"
proof -
  let ?da = "[''samples'' \<mapsto> ramp 1 4 1 8 8 100]" and ?de = "[''samples'' \<mapsto> ramp 1 16 2 8 8 300]"
  have h: "?da ''samples'' = Some (ramp 1 4 1 8 8 100)" "?de ''samples'' = Some (ramp 1 16 2 8 8 300)"
    "dimC (ramp 1 16 2 8 8 300) \<noteq> dimC (ramp 1 4 1 8 8 100)
     \<or> dimH (ramp 1 16 2 8 8 300) \<noteq> dimH (ramp 1 4 1 8 8 100)
     \<or> dimW (ramp 1 16 2 8 8 300) \<noteq> dimW (ramp 1 4 1 8 8 100)"
    by (simp_all add: ramp_def)
  note inst = end_mismatch_is_skipped [where da = ?da and de = ?de
      and x = "ramp 1 4 1 8 8 100" and e = "ramp 1 16 2 8 8 300" and len = 21
      and po = offset_out and td = round_to_dtype and prev = None and mlc = 1, OF h]
  obtain a where a: "assemble offset_out round_to_dtype 21 None (Some ?da) 1 None = Inr a"
    using assemble_total [where anchor = "Some ?da" and da = ?da
        and x = "ramp 1 4 1 8 8 100" and prev = None and end_samples = None and len = 21
        and mlc = 1 and td = round_to_dtype, OF keeps_shape_offset_out]
    by (auto simp add: ramp_def total_latents_def)
  have a': "assemble offset_out round_to_dtype 21 None (Some ?da) 1 (Some ?de) = Inr a"
    using inst a by simp
  have T: "dimT (mask' a) = 6"
    using a by (auto simp add: assemble_Inr total_latents_def dest!: make_mask_Inr)
  from inst a' have "end_t_fix a = 0"
    and "\<forall>t h w. t < dimT (mask' a) \<longrightarrow> elem (mask' a) 0 0 t h w = (if t = 0 then 0 else 1)"
    by blast+
  then show ?thesis
    using inst a' T by simp
qed

lemma end_lock_batch_mismatch:
  assumes "de ''samples'' = Some e" and "2 \<le> dimB e" and "dimB e \<noteq> B"
    and "dimC e = C" and "dimH e = H" and "dimW e = W"
    and "1 \<le> dimT e" and "1 \<le> n" and "dimB img = B"
  shows "end_lock td B C H W n (Some de) img = Inl RuntimeError"
  using assms
  by (auto simp add: end_lock_def samples_of_def Let_def assign_from_def broadcastable_def
      slice_from_def)

text \<open>
  C9. An end block with the anchor's channel, height and width, at least one slot and a
  batch size \<open>B_end \<ge> 2\<close> different from the working batch size makes the run raise: the
  batch repeat applies to batch size 1 only, and the overwrite of the trailing slots
  raises RuntimeError once steps 1 and 2 have returned.
\<close>

theorem end_batch_mismatch_raises:
  assumes "da ''samples'' = Some x" and "de ''samples'' = Some e"
    and "2 \<le> dimB e" and "dimB e \<noteq> dimB x"
    and "dimC e = dimC x" and "dimH e = dimH x" and "dimW e = dimW x"
    and "1 \<le> dimT e" and "1 \<le> total_latents len"
    and "base_latent_of x prev mlc = Inr base"
    and "pad_latent po (dtype x) (dimB x) (dimC x) (dimH x) (dimW x) (total_latents len) base = Inr padded"
  shows "end_lock td (dimB x) (dimC x) (dimH x) (dimW x) (total_latents len) (Some de) padded
           = Inl RuntimeError
         \<and> assemble po td len prev (Some da) mlc (Some de) = Inl RuntimeError"
proof -
  have "dimB padded = dimB x"
    using pad_latent_shape [OF assms(11)] base_latent_of_shape [OF assms(10)]
    by (simp add: same_bchw_def)
  then have lock: "end_lock td (dimB x) (dimC x) (dimH x) (dimW x) (total_latents len) (Some de) padded
      = Inl RuntimeError"
    using assms(2-9)
    by (intro end_lock_batch_mismatch [where de = de and e = e]) simp_all
  then show ?thesis
    using assms(1,10,11) by (simp add: assemble_def samples_of_def Let_def)
qed

theorem end_batch_mismatch_raises_witness:
  "assemble offset_out round_to_dtype 5 None (Some [''samples'' \<mapsto> ramp 3 4 1 8 8 100]) 1
       (Some [''samples'' \<mapsto> ramp 2 4 1 8 8 300]) = Inl RuntimeError"
proof -
  let ?x = "ramp 3 4 1 8 8 100" and ?e = "ramp 2 4 1 8 8 300"
  have base: "base_latent_of ?x None 1 = Inr ?x"
    by (simp add: base_latent_of_def)
  obtain padded where padded:
    "pad_latent offset_out (dtype ?x) (dimB ?x) (dimC ?x) (dimH ?x) (dimW ?x) (total_latents 5) ?x
       = Inr padded"
    using pad_latent_total [where base = ?x and B = "dimB ?x" and C = "dimC ?x"
        and H = "dimH ?x" and W = "dimW ?x" and n = "total_latents 5" and dt = "dtype ?x",
        OF keeps_shape_offset_out]
    by (auto simp add: total_latents_def)
  show ?thesis
    using end_batch_mismatch_raises [where da = "[''samples'' \<mapsto> ?x]" and x = ?x
        and de = "[''samples'' \<mapsto> ?e]" and e = ?e and len = 5 and prev = None and mlc = 1
        and base = ?x and po = offset_out and td = round_to_dtype and padded = padded, OF _ _ _ _ _ _ _ _ _ base padded]
    by (simp add: ramp_def total_latents_def)
qed

lemma bidx_in_range: "i < n \<Longrightarrow> bidx n i = i"
  by (auto simp add: bidx_def)

lemma overwrite_all:
  assumes asg: "assign_from td (- n) img (slice_from (- n) el) = Inr locked"
    and n: "1 \<le> n" "n \<le> int (dimT el)"
    and img: "int (dimT img) = n"
    and same: "dimC el = dimC img" "dimH el = dimH img" "dimW el = dimW img"
    and rng: "c < dimC img" "t < dimT img" "h < dimH img" "w < dimW img"
  shows "elem locked b c t h w
           = td (dtype img) (elem el (bidx (dimB el) b) c (dimT el - nat n + t) h w)"
proof -
  have pos: "0 < n" using n by simp
  note tl = slice_from_tail [OF pos n(2)]
  have s0: "slice_index (- n) (dimT img) = 0"
    using img by (simp add: slice_index_def)
  have dims: "dimB (slice_from (- n) el) = dimB el" "dimC (slice_from (- n) el) = dimC img"
    "dimH (slice_from (- n) el) = dimH img" "dimW (slice_from (- n) el) = dimW img"
    using same by (simp_all add: slice_from_def Let_def)
  have t': "t < nat n" using rng(2) img by simp
  have "elem locked b c t h w
      = td (dtype img)
          (elem (slice_from (- n) el) (bidx (dimB el) b) (bidx (dimC img) c) (bidx (nat n) t)
             (bidx (dimH img) h) (bidx (dimW img) w))"
    using asg s0 rng(2) tl(1) dims
    by (auto simp add: assign_from_def Let_def split: if_splits)
  also have "\<dots> = td (dtype img) (elem (slice_from (- n) el) (bidx (dimB el) b) c t h w)"
    using rng t' by (simp add: bidx_in_range)
  finally show ?thesis
    by (simp add: tl(2))
qed

lemma end_lock_covers:
  assumes lock: "end_lock td B C H W n (Some de) img = Inr (locked, k)"
    and e: "de ''samples'' = Some e"
    and chw: "dimC e = C" "dimH e = H" "dimW e = W"
    and n: "1 \<le> n" "n \<le> int (dimT e)"
    and img: "int (dimT img) = n" "dimB img = B" "dimC img = C" "dimH img = H" "dimW img = W"
  shows "k = n"
    and "dtype locked = dtype img"
    and "b < B \<Longrightarrow> c < C \<Longrightarrow> t < dimT img \<Longrightarrow> h < H \<Longrightarrow> w < W \<Longrightarrow>
      elem locked b c t h w
        = td (dtype img) (elem e (if dimB e = 1 then 0 else b) c (dimT e - nat n + t) h w)"
proof -
  have k0: "min (int (dimT e)) n = n" using n by simp
  show "k = n"
    using lock e chw n k0
    by (auto simp add: end_lock_def samples_of_def Let_def repeat_batch_def
        split: if_splits sum.splits)
  show "dtype locked = dtype img"
    using lock e chw n k0
    by (auto simp add: end_lock_def samples_of_def Let_def repeat_batch_def assign_from_def
        split: if_splits sum.splits)
  assume rng: "b < B" "c < C" "t < dimT img" "h < H" "w < W"
  show "elem locked b c t h w
        = td (dtype img) (elem e (if dimB e = 1 then 0 else b) c (dimT e - nat n + t) h w)"
  proof (cases "dimB e = 1 \<and> 1 < B")
    case True
    let ?el = "repeat_batch B e"
    have asg: "assign_from td (- n) img (slice_from (- n) ?el) = Inr locked"
      using lock e chw n k0 True
      by (auto simp add: end_lock_def samples_of_def Let_def repeat_batch_def
          split: if_splits sum.splits)
    have "elem locked b c t h w
        = td (dtype img) (elem ?el (bidx (dimB ?el) b) c (dimT ?el - nat n + t) h w)"
      using n chw img rng
      by (intro overwrite_all [OF asg]) (simp_all add: repeat_batch_def)
    then show ?thesis
      using True by (simp add: repeat_batch_def bidx_def)
  next
    case False
    have asg: "assign_from td (- n) img (slice_from (- n) e) = Inr locked"
      using lock e chw n k0 False
      by (auto simp add: end_lock_def samples_of_def Let_def
          split: if_splits sum.splits)
    have "elem locked b c t h w
        = td (dtype img) (elem e (bidx (dimB e) b) c (dimT e - nat n + t) h w)"
      using n chw img rng
      by (intro overwrite_all [OF asg]) simp_all
    then show ?thesis
      by (simp add: bidx_def)
  qed
qed

lemma round_to_dtype_small: "round_to_dtype dt 31 = 31" "round_to_dtype dt 32 = 32"
  by (cases dt; simp add: round_to_dtype_def Let_def)+

lemma round_to_dtype_half_2049: "round_to_dtype Float16 2049 = 2048"
  by (simp add: round_to_dtype_def Let_def)

text \<open>
  C10, as stated: with a compatible end block of at least \<open>total_latents\<close> slots, every
  slot of the assembled block equals the corresponding slot of the end block. The
  overwrite at line 201 converts the end block's values to the dtype of the block it writes
  into. With an anchor of dtype \<open>Float16\<close> and a \<open>Float32\<close> end block that holds 2049, which
  \<open>Float16\<close> cannot represent, the run returns and the assembled block holds 2048.
\<close>

theorem end_block_value_is_converted:
  "\<not> isl (assemble offset_out round_to_dtype 1 None
            (Some [''samples'' \<mapsto> (ramp 1 4 1 8 8 100)\<lparr>dtype := Float16\<rparr>]) 1
            (Some [''samples'' \<mapsto> ramp 1 4 1 8 8 2049]))
   \<and> elem (image_cond_latent (projr (assemble offset_out round_to_dtype 1 None
            (Some [''samples'' \<mapsto> (ramp 1 4 1 8 8 100)\<lparr>dtype := Float16\<rparr>]) 1
            (Some [''samples'' \<mapsto> ramp 1 4 1 8 8 2049])))) 0 0 0 0 0 = 2048
   \<and> elem (ramp 1 4 1 8 8 2049) 0 0 0 0 0 = 2049"
  by (simp add: assemble_def samples_of_def base_latent_of_def pad_latent_def end_lock_def
      assign_from_def slice_from_def slice_to_def slice_index_def broadcastable_def bidx_def
      make_mask_def total_latents_def ramp_def Let_def round_to_dtype_half_2049)

text \<open>
  C10, amended: if \<open>end_samples\<close> has the anchor's channel, height and width and at least
  \<open>total_latents\<close> slots, then in a run that returns every element of every slot of the
  assembled block, slot 0 included, is the corresponding element of the last
  \<open>total_latents\<close> slots of the end block converted to the dtype of the assembled block,
  and the mask is 0 at every slot.
\<close>

theorem end_block_replaces_all_slots:
  assumes run: "assemble po td len prev (Some da) mlc (Some de) = Inr a"
    and x: "da ''samples'' = Some x" and e: "de ''samples'' = Some e"
    and chw: "dimC e = dimC x" "dimH e = dimH x" "dimW e = dimW x"
    and cover: "total_latents len \<le> int (dimT e)" and len: "1 \<le> len"
    and po: "keeps_shape po"
  shows "int (dimT (image_cond_latent a)) = total_latents len
         \<and> end_t_fix a = total_latents len
         \<and> (\<forall>b c t h w.
               b < dimB x \<and> c < dimC x \<and> int t < total_latents len \<and> h < dimH x \<and> w < dimW x
               \<longrightarrow> elem (image_cond_latent a) b c t h w
                     = td (dtype (image_cond_latent a))
                         (elem e (if dimB e = 1 then 0 else b) c
                            (dimT e - nat (total_latents len) + t) h w))
         \<and> (\<forall>t h w. int t < total_latents len \<longrightarrow> elem (mask' a) 0 0 t h w = 0)"
proof -
  let ?n = "total_latents len"
  have pos: "1 \<le> ?n"
    using len by (simp add: total_latents_def)
  from run x obtain base padded where
    base: "base_latent_of x prev mlc = Inr base"
    and padded: "pad_latent po (dtype x) (dimB x) (dimC x) (dimH x) (dimW x) ?n base
                   = Inr padded"
    and lock: "end_lock td (dimB x) (dimC x) (dimH x) (dimW x) ?n (Some de) padded
                 = Inr (image_cond_latent a, end_t_fix a)"
    and m: "make_mask (dtype x) (dimH x) (dimW x) ?n (end_t_fix a) = Inr (mask' a)"
    by (auto simp add: assemble_Inr samples_of_def)
  note bs = base_latent_of_shape [OF base]
  have "\<exists>img. pad_latent po (dtype x) (dimB x) (dimC x) (dimH x) (dimW x) ?n base = Inr img
          \<and> int (dimT img) = ?n \<and> same_bchw img base"
    using po bs pos by (intro pad_latent_total) (simp_all add: same_bchw_def)
  then have pd: "int (dimT padded) = ?n" "dimB padded = dimB x" "dimC padded = dimC x"
    "dimH padded = dimH x" "dimW padded = dimW x"
    using padded bs by (auto simp add: same_bchw_def)
  note cov = end_lock_covers [OF lock e chw pos cover pd]
  have T: "dimT (image_cond_latent a) = dimT padded"
    using end_lock_shape [OF lock] by simp
  have mask0: "elem (mask' a) 0 0 t h w = 0" if "int t < ?n" for t h w
    using make_mask_Inr [OF m] cov(1) pos that by simp
  have img: "elem (image_cond_latent a) b c t h w
      = td (dtype (image_cond_latent a))
          (elem e (if dimB e = 1 then 0 else b) c (dimT e - nat ?n + t) h w)"
    if "b < dimB x" "c < dimC x" "int t < ?n" "h < dimH x" "w < dimW x" for b c t h w
    unfolding cov(2) using that pd(1) by (intro cov(3)) simp_all
  show ?thesis
    using T pd(1) cov(1) mask0 img by simp
qed

theorem end_block_replaces_all_slots_witness:
  "\<exists>a. assemble offset_out round_to_dtype 5 None (Some [''samples'' \<mapsto> ramp 1 4 1 8 8 100]) 1
          (Some [''samples'' \<mapsto> ramp 1 4 3 8 8 30]) = Inr a
       \<and> dimT (image_cond_latent a) = 2 \<and> end_t_fix a = 2
       \<and> map (\<lambda>t. elem (image_cond_latent a) 0 0 t 0 0) [0, 1] = [31, 32]
       \<and> map (\<lambda>t. elem (mask' a) 0 0 t 0 0) [0, 1] = [0, 0]"
proof -
  let ?x = "ramp 1 4 1 8 8 100" and ?e = "ramp 1 4 3 8 8 30"
  let ?da = "[''samples'' \<mapsto> ?x]" and ?de = "[''samples'' \<mapsto> ?e]"
  obtain a where a: "assemble offset_out round_to_dtype 5 None (Some ?da) 1 (Some ?de) = Inr a"
    using assemble_total [where anchor = "Some ?da" and da = ?da and x = ?x and prev = None
        and end_samples = "Some ?de" and len = 5 and mlc = 1 and td = round_to_dtype,
        OF keeps_shape_offset_out]
    by (auto simp add: ramp_def total_latents_def)
  have n: "total_latents 5 = 2" by (simp add: total_latents_def)
  have h: "?da ''samples'' = Some ?x" "?de ''samples'' = Some ?e"
    "dimC ?e = dimC ?x" "dimH ?e = dimH ?x" "dimW ?e = dimW ?x"
    "total_latents 5 \<le> int (dimT ?e)" "(1::int) \<le> 5"
    by (simp_all add: ramp_def n)
  note inst = end_block_replaces_all_slots [where da = ?da and de = ?de and x = ?x and e = ?e,
      OF a h keeps_shape_offset_out, unfolded n]
  from inst have T: "int (dimT (image_cond_latent a)) = 2" and k: "end_t_fix a = 2"
    and img: "\<forall>b c t h w.
               b < dimB ?x \<and> c < dimC ?x \<and> int t < 2 \<and> h < dimH ?x \<and> w < dimW ?x
               \<longrightarrow> elem (image_cond_latent a) b c t h w
                     = round_to_dtype (dtype (image_cond_latent a))
                         (elem ?e (if dimB ?e = 1 then 0 else b) c (dimT ?e - nat 2 + t) h w)"
    and msk: "\<forall>t h w. int t < 2 \<longrightarrow> elem (mask' a) 0 0 t h w = 0"
    by blast+
  have "elem (image_cond_latent a) 0 0 0 0 0 = 31" "elem (image_cond_latent a) 0 0 1 0 0 = 32"
    using img [rule_format, of 0 0 0 0 0] img [rule_format, of 0 0 1 0 0]
    by (simp_all add: ramp_def round_to_dtype_small)
  moreover have "elem (mask' a) 0 0 0 0 0 = 0" "elem (mask' a) 0 0 1 0 0 = 0"
    using msk [rule_format, of 0 0 0] msk [rule_format, of 1 0 0] by simp_all
  ultimately show ?thesis
    using a T k by simp
qed

section \<open>The temporal extent of the conditioning\<close>

lemma assemble_total_slots:
  assumes po: "keeps_shape po"
    and x: "da ''samples'' = Some x"
    and pv: "prev = None \<or> (\<exists>dp y. prev = Some dp \<and> dp ''samples'' = Some y \<and> same_bchw y x)"
    and en: "end_samples = None
      \<or> (\<exists>de e. end_samples = Some de \<and> de ''samples'' = Some e
            \<and> (dimB e = dimB x \<or> dimB e = 1))"
    and n: "0 \<le> total_latents len"
  shows "\<exists>a. assemble po td len prev (Some da) mlc end_samples = Inr a
           \<and> int (dimT (image_cond_latent a)) = total_latents len
           \<and> dimT (mask' a) = dimT (image_cond_latent a)"
proof -
  let ?n = "total_latents len"
  from assemble_total [where da = da and x = x, OF po refl x pv en n]
  obtain a where a: "assemble po td len prev (Some da) mlc end_samples = Inr a"
    by blast
  from a x obtain base padded where
    base: "base_latent_of x prev mlc = Inr base"
    and padded: "pad_latent po (dtype x) (dimB x) (dimC x) (dimH x) (dimW x) ?n base = Inr padded"
    and lock: "end_lock td (dimB x) (dimC x) (dimH x) (dimW x) ?n end_samples padded
                 = Inr (image_cond_latent a, end_t_fix a)"
    and m: "make_mask (dtype x) (dimH x) (dimW x) ?n (end_t_fix a) = Inr (mask' a)"
    by (auto simp add: assemble_Inr samples_of_def)
  note bs = base_latent_of_shape [OF base]
  have "\<exists>img. pad_latent po (dtype x) (dimB x) (dimC x) (dimH x) (dimW x) ?n base = Inr img
          \<and> int (dimT img) = ?n \<and> same_bchw img base"
    using po bs n by (intro pad_latent_total) (simp_all add: same_bchw_def)
  then have "int (dimT padded) = ?n"
    using padded by auto
  then have "int (dimT (image_cond_latent a)) = ?n"
    using end_lock_shape [OF lock] by simp
  moreover have "dimT (mask' a) = nat ?n"
    using make_mask_Inr [OF m] by simp
  ultimately show ?thesis
    using a by auto
qed

lemma conditioning_set_values_entry:
  assumes "entry \<in> set (conditioning_set_values conditioning [(k1, v1), (k2, v2)])"
    and "k1 \<noteq> k2"
  shows "snd entry k1 = Some v1 \<and> snd entry k2 = Some v2"
  using assms by (auto simp add: conditioning_set_values_def)

text \<open>
  C3. For \<open>length \<ge> 1\<close>, an anchor container with \<^verbatim>\<open>samples\<close>, and \<open>prev_samples\<close> and
  \<open>end_samples\<close> that are absent or hold a block of the anchor's batch, channel, height and
  width, the node returns, whatever \<open>T_anchor\<close>, \<open>T_prev\<close>, \<open>motion_latent_count\<close> and
  \<open>T_end\<close> are; every entry of the positive and of the negative conditioning then carries a
  \<^verbatim>\<open>concat_latent_image\<close> of exactly \<open>total_latents\<close> slots and a \<^verbatim>\<open>concat_mask\<close> of as many
  slots. The padding transform is assumed to return a tensor of its argument's extents.
\<close>

theorem concat_latent_image_slots:
  assumes po: "keeps_shape po" and len: "1 \<le> len"
    and x: "da ''samples'' = Some x"
    and pv: "prev = None \<or> (\<exists>dp y. prev = Some dp \<and> dp ''samples'' = Some y \<and> same_bchw y x)"
    and en: "end_samples = None
      \<or> (\<exists>de e. end_samples = Some de \<and> de ''samples'' = Some e \<and> same_bchw e x)"
  shows "\<exists>out. WanImageToVideoSVIProFLF_execute po td pos neg len prev (Some da) mlc end_samples
                 = Inr out
           \<and> length (positive out) = length pos \<and> length (negative out) = length neg
           \<and> (\<forall>entry \<in> set (positive out) \<union> set (negative out).
                 \<exists>img m. snd entry ''concat_latent_image'' = Some img
                   \<and> snd entry ''concat_mask'' = Some m
                   \<and> int (dimT img) = total_latents len
                   \<and> dimT m = dimT img)"
proof -
  have n: "0 \<le> total_latents len"
    using len by (simp add: total_latents_def)
  have en': "end_samples = None
      \<or> (\<exists>de e. end_samples = Some de \<and> de ''samples'' = Some e
            \<and> (dimB e = dimB x \<or> dimB e = 1))"
    using en by (auto simp add: same_bchw_def)
  from assemble_total_slots [where da = da and x = x, OF po x pv en' n]
  obtain a where a: "assemble po td len prev (Some da) mlc end_samples = Inr a"
    and T: "int (dimT (image_cond_latent a)) = total_latents len"
    and M: "dimT (mask' a) = dimT (image_cond_latent a)"
    by blast
  let ?vals = "[(''concat_latent_image'', image_cond_latent a), (''concat_mask'', mask' a)]"
  let ?out = "\<lparr>positive = conditioning_set_values pos ?vals,
               negative = conditioning_set_values neg ?vals,
               latent = [''samples'' \<mapsto> empty_latent a]\<rparr>"
  have run: "WanImageToVideoSVIProFLF_execute po td pos neg len prev (Some da) mlc end_samples
      = Inr ?out"
    using a by (simp add: WanImageToVideoSVIProFLF_execute_def Let_def)
  have ne: "''concat_latent_image'' \<noteq> ''concat_mask''" by simp
  have "\<exists>img m. snd entry ''concat_latent_image'' = Some img
                   \<and> snd entry ''concat_mask'' = Some m
                   \<and> int (dimT img) = total_latents len
                   \<and> dimT m = dimT img"
    if "entry \<in> set (positive ?out) \<union> set (negative ?out)" for entry
    using that conditioning_set_values_entry [OF _ ne, of entry _ "image_cond_latent a" "mask' a"]
      T M by auto
  then show ?thesis
    unfolding run by (intro exI [of _ ?out]) (simp add: conditioning_set_values_def)
qed

theorem concat_latent_image_slots_witness:
  "\<exists>out. WanImageToVideoSVIProFLF_execute offset_out round_to_dtype [((), Map.empty)] [((), Map.empty)] 21
            (Some [''samples'' \<mapsto> ramp 1 4 3 8 8 200])
            (Some [''samples'' \<mapsto> ramp 1 4 1 8 8 100]) 2
            (Some [''samples'' \<mapsto> ramp 1 4 2 8 8 300]) = Inr out
     \<and> (\<exists>c d img m. positive out = [(c, d)] \<and> d ''concat_latent_image'' = Some img
           \<and> d ''concat_mask'' = Some m \<and> dimT img = 6 \<and> dimT m = 6)"
proof -
  let ?x = "ramp 1 4 1 8 8 100" and ?y = "ramp 1 4 3 8 8 200" and ?e = "ramp 1 4 2 8 8 300"
  have h: "(1::int) \<le> 21" "[''samples'' \<mapsto> ?x] ''samples'' = Some ?x"
    "Some [''samples'' \<mapsto> ?y] = None
      \<or> (\<exists>dp y. Some [''samples'' \<mapsto> ?y] = Some dp \<and> dp ''samples'' = Some y \<and> same_bchw y ?x)"
    "Some [''samples'' \<mapsto> ?e] = None
      \<or> (\<exists>de e. Some [''samples'' \<mapsto> ?e] = Some de \<and> de ''samples'' = Some e \<and> same_bchw e ?x)"
    by (simp_all add: ramp_def same_bchw_def)
  from concat_latent_image_slots [where da = "[''samples'' \<mapsto> ?x]" and x = ?x
      and pos = "[((), Map.empty)]" and neg = "[((), Map.empty)]" and mlc = 2,
      OF keeps_shape_offset_out h]
  obtain out where run: "WanImageToVideoSVIProFLF_execute offset_out round_to_dtype [((), Map.empty)]
        [((), Map.empty)] 21 (Some [''samples'' \<mapsto> ?y]) (Some [''samples'' \<mapsto> ?x]) 2
        (Some [''samples'' \<mapsto> ?e]) = Inr out"
    and lp: "length (positive out) = length [((), Map.empty :: string \<rightharpoonup> int tensor)]"
    and all: "\<forall>entry \<in> set (positive out) \<union> set (negative out).
                 \<exists>img m. snd entry ''concat_latent_image'' = Some img
                   \<and> snd entry ''concat_mask'' = Some m
                   \<and> int (dimT img) = total_latents 21
                   \<and> dimT m = dimT img"
    by blast
  from lp obtain c d where one: "positive out = [(c, d)]"
    by (cases "positive out") auto
  with all obtain img m where "d ''concat_latent_image'' = Some img"
    "d ''concat_mask'' = Some m" "int (dimT img) = total_latents 21" "dimT m = dimT img"
    by fastforce
  then show ?thesis
    using run one by (auto simp add: total_latents_def)
qed

section \<open>When the node fails\<close>

lemma base_latent_of_isl:
  "isl (base_latent_of x prev mlc) \<longleftrightarrow>
     (case prev of
        None \<Rightarrow> False
      | Some dp \<Rightarrow>
          mlc \<noteq> 0 \<and>
          (case dp ''samples'' of
             None \<Rightarrow> True
           | Some y \<Rightarrow> 0 < min mlc (int (dimT y)) \<and> \<not> same_bchw x y))"
  by (auto simp add: base_latent_of_def samples_of_def Let_def cat_time_def same_bchw_def
      slice_from_def split: option.splits)

lemma end_lock_isl:
  assumes "dimB img = B" and "int (dimT img) = n" and "1 \<le> n"
    and "dimC img = C" and "dimH img = H" and "dimW img = W"
  shows "isl (end_lock td B C H W n end_samples img) \<longleftrightarrow>
     (case end_samples of
        None \<Rightarrow> False
      | Some de \<Rightarrow>
          (case de ''samples'' of
             None \<Rightarrow> True
           | Some e \<Rightarrow>
               dimC e = C \<and> dimH e = H \<and> dimW e = W \<and> 1 \<le> dimT e
               \<and> dimB e \<noteq> 1 \<and> dimB e \<noteq> B))"
  using assms
  by (auto simp add: end_lock_def samples_of_def Let_def assign_from_def broadcastable_def
      slice_from_def slice_index_def repeat_batch_def split: option.splits)

lemma assemble_isl:
  assumes po: "keeps_shape po" and len: "1 \<le> len"
  shows "isl (assemble po td len prev anchor mlc end_samples) \<longleftrightarrow>
     (case anchor of
        None \<Rightarrow> True
      | Some da \<Rightarrow>
          (case da ''samples'' of
             None \<Rightarrow> True
           | Some x \<Rightarrow>
               isl (base_latent_of x prev mlc)
               \<or> (case end_samples of
                     None \<Rightarrow> False
                   | Some de \<Rightarrow>
                       (case de ''samples'' of
                          None \<Rightarrow> True
                        | Some e \<Rightarrow>
                            dimC e = dimC x \<and> dimH e = dimH x \<and> dimW e = dimW x
                            \<and> 1 \<le> dimT e \<and> dimB e \<noteq> 1 \<and> dimB e \<noteq> dimB x))))"
proof (cases anchor)
  case None
  then show ?thesis by (simp add: assemble_def samples_of_def)
next
  case (Some da)
  show ?thesis
  proof (cases "da ''samples''")
    case None
    with Some show ?thesis by (simp add: assemble_def samples_of_def)
  next
    case x: (Some x)
    let ?n = "total_latents len"
    have n: "1 \<le> ?n" using len by (simp add: total_latents_def)
    show ?thesis
    proof (cases "base_latent_of x prev mlc")
      case (Inl err)
      with Some x show ?thesis by (simp add: assemble_def samples_of_def)
    next
      case (Inr base)
      note bs = base_latent_of_shape [OF Inr]
      have "\<exists>img. pad_latent po (dtype x) (dimB x) (dimC x) (dimH x) (dimW x) ?n base = Inr img
          \<and> int (dimT img) = ?n \<and> same_bchw img base"
        using po bs n by (intro pad_latent_total) (simp_all add: same_bchw_def)
      then obtain padded where
        padded: "pad_latent po (dtype x) (dimB x) (dimC x) (dimH x) (dimW x) ?n base = Inr padded"
        and pd: "int (dimT padded) = ?n" "dimB padded = dimB x" "dimC padded = dimC x"
          "dimH padded = dimH x" "dimW padded = dimW x"
        using bs by (auto simp add: same_bchw_def)
      have "isl (assemble po td len prev anchor mlc end_samples)
          \<longleftrightarrow> isl (end_lock td (dimB x) (dimC x) (dimH x) (dimW x) ?n end_samples padded)"
        using Some x Inr padded n
        by (auto simp add: assemble_def samples_of_def Let_def make_mask_def
            split: sum.splits)
      also note end_lock_isl [where end_samples = end_samples and td = td,
          OF pd(2) pd(1) n pd(3) pd(4) pd(5)]
      finally show ?thesis
        using Some x Inr by simp
    qed
  qed
qed


lemma execute_isl:
  "isl (WanImageToVideoSVIProFLF_execute po td pos neg len prev anchor mlc end_samples)
     \<longleftrightarrow> isl (assemble po td len prev anchor mlc end_samples)"
  by (simp add: WanImageToVideoSVIProFLF_execute_def Let_def split: sum.splits)

text \<open>
  C8, as stated: the node fails exactly when \<open>anchor_samples\<close> is missing or an input
  container lacks \<^verbatim>\<open>samples\<close>. Neither direction holds. A previous block of another
  height and width makes the concatenation raise although every container is well formed,
  and a \<open>prev_samples\<close> container without \<^verbatim>\<open>samples\<close> is never read when
  \<open>motion_latent_count = 0\<close>, so that run returns.
\<close>

theorem failure_not_only_missing_inputs:
  "WanImageToVideoSVIProFLF_execute offset_out round_to_dtype ([] :: (unit, int) conditioning) [] 5
       (Some [''samples'' \<mapsto> ramp 1 4 3 16 16 200])
       (Some [''samples'' \<mapsto> ramp 1 4 1 8 8 100]) 1 None = Inl RuntimeError
   \<and> \<not> isl (WanImageToVideoSVIProFLF_execute offset_out round_to_dtype ([] :: (unit, int) conditioning) [] 5
       (Some [''noise_mask'' \<mapsto> ramp 1 4 3 8 8 200])
       (Some [''samples'' \<mapsto> ramp 1 4 1 8 8 100]) 0 None)"
proof
  show "WanImageToVideoSVIProFLF_execute offset_out round_to_dtype ([] :: (unit, int) conditioning) [] 5
       (Some [''samples'' \<mapsto> ramp 1 4 3 16 16 200])
       (Some [''samples'' \<mapsto> ramp 1 4 1 8 8 100]) 1 None = Inl RuntimeError"
    by (simp add: WanImageToVideoSVIProFLF_execute_def assemble_def samples_of_def
        base_latent_of_def Let_def cat_time_def same_bchw_def slice_from_def ramp_def)
  show "\<not> isl (WanImageToVideoSVIProFLF_execute offset_out round_to_dtype ([] :: (unit, int) conditioning) [] 5
       (Some [''noise_mask'' \<mapsto> ramp 1 4 3 8 8 200])
       (Some [''samples'' \<mapsto> ramp 1 4 1 8 8 100]) 0 None)"
    by (simp add: execute_isl assemble_isl [OF keeps_shape_offset_out] base_latent_of_def)
qed

text \<open>
  C8, amended: for \<open>length \<ge> 1\<close> and a padding transform that returns a tensor of its
  argument's extents, the node fails, with the error handed to the caller and no result,
  exactly when \<open>anchor_samples\<close> is missing or lacks \<^verbatim>\<open>samples\<close>; or \<open>prev_samples\<close> is
  given, \<open>motion_latent_count \<noteq> 0\<close>, and it lacks \<^verbatim>\<open>samples\<close> or a motion tail of at least
  one slot is taken from a block whose batch, channel, height or width differs from the
  anchor's; or \<open>end_samples\<close> is given and lacks \<^verbatim>\<open>samples\<close>, or has the anchor's channel,
  height and width, at least one slot, and a batch size that is neither 1 nor the anchor's.
\<close>

theorem execute_fails_iff:
  assumes "keeps_shape po" and "1 \<le> len"
  shows "isl (WanImageToVideoSVIProFLF_execute po td pos neg len prev anchor mlc end_samples)
     \<longleftrightarrow>
     (case anchor of
        None \<Rightarrow> True
      | Some da \<Rightarrow>
          (case da ''samples'' of
             None \<Rightarrow> True
           | Some x \<Rightarrow>
               (case prev of
                  None \<Rightarrow> False
                | Some dp \<Rightarrow>
                    mlc \<noteq> 0 \<and>
                    (case dp ''samples'' of
                       None \<Rightarrow> True
                     | Some y \<Rightarrow> 0 < min mlc (int (dimT y)) \<and> \<not> same_bchw x y))
               \<or> (case end_samples of
                     None \<Rightarrow> False
                   | Some de \<Rightarrow>
                       (case de ''samples'' of
                          None \<Rightarrow> True
                        | Some e \<Rightarrow>
                            dimC e = dimC x \<and> dimH e = dimH x \<and> dimW e = dimW x
                            \<and> 1 \<le> dimT e \<and> dimB e \<noteq> 1 \<and> dimB e \<noteq> dimB x))))"
  unfolding execute_isl assemble_isl [OF assms] base_latent_of_isl ..

theorem execute_fails_iff_witness:
  "isl (WanImageToVideoSVIProFLF_execute offset_out round_to_dtype ([] :: (unit, int) conditioning) [] 21
          None None 1 None)
   \<and> isl (WanImageToVideoSVIProFLF_execute offset_out round_to_dtype ([] :: (unit, int) conditioning) [] 21
          None (Some [''noise_mask'' \<mapsto> ramp 1 4 1 8 8 100]) 1 None)
   \<and> isl (WanImageToVideoSVIProFLF_execute offset_out round_to_dtype ([] :: (unit, int) conditioning) [] 21
          None (Some [''samples'' \<mapsto> ramp 3 4 1 8 8 100]) 1
          (Some [''samples'' \<mapsto> ramp 2 4 1 8 8 300]))
   \<and> \<not> isl (WanImageToVideoSVIProFLF_execute offset_out round_to_dtype ([] :: (unit, int) conditioning) [] 21
          (Some [''samples'' \<mapsto> ramp 1 4 3 8 8 200])
          (Some [''samples'' \<mapsto> ramp 1 4 1 8 8 100]) 2
          (Some [''samples'' \<mapsto> ramp 1 4 2 8 8 300]))"
proof -
  have len: "(1::int) \<le> 21" by simp
  note iff = execute_fails_iff [OF keeps_shape_offset_out len,
      where pos = "[] :: (unit, int) conditioning" and neg = "[]"]
  show ?thesis
    by (simp add: iff ramp_def same_bchw_def)
qed

end
